theory Spec2Isabelle
  imports Complex_Main
begin

section \<open>Preview widget of cuegui: port discovery, the process operation, the watch thread\<close>

text \<open>
  The development follows \<^verbatim>\<open>cuegui/PreviewWidget.py\<close>. Python exceptions are
  values of the type \<open>error\<close>; everything the code asks of its surroundings (the
  filesystem, the clock, the preview server, the Qt base class) is an explicit
  argument of the model.
\<close>

subsection \<open>Exceptions and observable actions\<close>

datatype error =
    AttributeError string
  | IndexError
  | ValueError
  | IOError
  | Exception string
  | External string

text \<open>
  What a run of the watch thread does to the outside: a signal emission with its
  integer arguments, \<^verbatim>\<open>time.sleep(1)\<close>, and the logger's warning.
\<close>

datatype action =
    Emit string "int list"
  | Sleep int
  | LogWarning string

subsection \<open>The surroundings of the watch thread\<close>

text \<open>
  \<open>exists_at w k p\<close> is the answer of \<^verbatim>\<open>os.path.exists(p)\<close> during the
  \<open>k\<close>-th pass through the loop (counted from 0); \<open>time_at w 0\<close> is the reading of
  \<^verbatim>\<open>time.time()\<close> at line 165 and \<open>time_at w (Suc k)\<close> the reading at line 173
  of pass \<open>k\<close>. Clock readings are idealised as real numbers.
\<close>

record world =
  exists_at :: "nat \<Rightarrow> string \<Rightarrow> bool"
  time_at :: "nat \<Rightarrow> real"

subsection \<open>\<^verbatim>\<open>PreviewProcessorWatchThread\<close>\<close>

text \<open>
  The instance holds the item list and the timeout. \<open>inherited\<close> lists the attribute
  names the base class \<^verbatim>\<open>QtCore.QThread\<close> contributes; the class body itself
  declares \<^verbatim>\<open>existCountChanged\<close>, \<^verbatim>\<open>__init__\<close> and \<^verbatim>\<open>run\<close>, and
  \<^verbatim>\<open>__init__\<close> sets the two name-mangled instance attributes.
\<close>

record watch_thread =
  items :: "string list"
  timeout :: int
  inherited :: "string list"

definition class_members :: "string list" where
  "class_members = [''existCountChanged'', ''__init__'', ''run'']"

definition instance_members :: "string list" where
  "instance_members =
     [''_PreviewProcessorWatchThread__items'', ''_PreviewProcessorWatchThread__timeout'']"

text \<open>Attribute lookup \<^verbatim>\<open>self.name\<close>: instance, then class, then base class.\<close>

definition resolves :: "watch_thread \<Rightarrow> string \<Rightarrow> bool" where
  "resolves self name =
     (name \<in> set (instance_members @ class_members @ inherited self))"

text \<open>\<^verbatim>\<open>__init__(self, items, parent)\<close>, lines 155 to 158.\<close>

definition init :: "string list \<Rightarrow> string list \<Rightarrow> watch_thread" where
  "init base its =
     \<lparr>items = its, timeout = 60 + (30 * int (length its)), inherited = base\<rparr>"

text \<open>
  The names PySide2 gives a \<^verbatim>\<open>QThread\<close> (its own members and those of
  \<^verbatim>\<open>QObject\<close>). Its signals are \<^verbatim>\<open>started\<close>, \<^verbatim>\<open>finished\<close>,
  \<^verbatim>\<open>destroyed\<close> and \<^verbatim>\<open>objectNameChanged\<close>.
\<close>

definition QThread_members :: "string list" where
  "QThread_members =
     [''started'', ''finished'', ''destroyed'', ''objectNameChanged'',
      ''currentThread'', ''eventDispatcher'', ''exec_'', ''exit'', ''idealThreadCount'',
      ''isFinished'', ''isInterruptionRequested'', ''isRunning'', ''loopLevel'',
      ''msleep'', ''priority'', ''quit'', ''requestInterruption'', ''setEventDispatcher'',
      ''setPriority'', ''setStackSize'', ''setTerminationEnabled'', ''sleep'',
      ''stackSize'', ''start'', ''terminate'', ''usleep'', ''wait'', ''yieldCurrentThread'',
      ''blockSignals'', ''childEvent'', ''children'', ''connect'', ''connectNotify'',
      ''customEvent'', ''deleteLater'', ''disconnect'', ''disconnectNotify'',
      ''dumpObjectInfo'', ''dumpObjectTree'', ''dynamicPropertyNames'', ''emit'',
      ''event'', ''eventFilter'', ''findChild'', ''findChildren'', ''inherits'',
      ''installEventFilter'', ''isSignalConnected'', ''isWidgetType'', ''isWindowType'',
      ''killTimer'', ''metaObject'', ''moveToThread'', ''objectName'', ''parent'',
      ''property'', ''receivers'', ''removeEventFilter'', ''sender'',
      ''senderSignalIndex'', ''setObjectName'', ''setParent'', ''setProperty'',
      ''signalsBlocked'', ''startTimer'', ''staticMetaObject'', ''thread'',
      ''timerEvent'', ''tr'']"

subsection \<open>\<^verbatim>\<open>run\<close>: the polling loop\<close>

text \<open>
  How the loop stands: still going round, left through the \<^verbatim>\<open>break\<close> of line 171
  (\<open>Completed\<close>), left through the \<^verbatim>\<open>break\<close> of line 176 (\<open>TimedOut\<close>), or
  left by an exception that nothing in \<^verbatim>\<open>run\<close> catches.
\<close>

datatype status = Running | Completed | TimedOut | Raised error

text \<open>
  \<open>passes\<close> counts the passes through the loop begun so far; the code has no such
  variable, it only says which answers of the surroundings the next pass sees.
\<close>

record poll_state =
  thread :: watch_thread
  start_time :: real
  passes :: nat
  trace :: "action list"
  status :: status

text \<open>Line 167: the number of items whose path exists now.\<close>

definition existing_count :: "world \<Rightarrow> nat \<Rightarrow> string list \<Rightarrow> int" where
  "existing_count w k its = int (length (filter (exists_at w k) its))"

text \<open>The expression \<^verbatim>\<open>self.__timeout + start_time\<close> of line 173.\<close>

definition deadline :: "poll_state \<Rightarrow> real" where
  "deadline s = real_of_int (timeout (thread s)) + start_time s"

text \<open>
  One pass through the body of \<^verbatim>\<open>while 1\<close>, lines 167 to 176. Line 168 emits
  through the string-named interface of \<^verbatim>\<open>QObject\<close>; lines 169 and 174 first
  look an attribute of \<^verbatim>\<open>self\<close> up, which raises when the name does not resolve.
\<close>

definition body :: "world \<Rightarrow> poll_state \<Rightarrow> poll_state" where
  "body w s =
     (let self = thread s;
          k = passes s;
          count = existing_count w k (items self);
          total = int (length (items self));
          s1 = s\<lparr>passes := Suc k,
                 trace := trace s @ [Emit ''existCountChanged'' [count, total]]\<rparr>
      in if \<not> resolves self ''existsCountChanged''
         then s1\<lparr>status := Raised (AttributeError ''existsCountChanged'')\<rparr>
         else
           let s2 = s1\<lparr>trace := trace s1 @ [Emit ''existsCountChanged'' [count, total]]\<rparr>
           in if count = total
              then s2\<lparr>status := Completed\<rparr>
              else
                let s3 = s2\<lparr>trace := trace s2 @ [Sleep 1]\<rparr>
                in if time_at w (Suc k) > deadline s
                   then if \<not> resolves self ''timeout''
                        then s3\<lparr>status := Raised (AttributeError ''timeout'')\<rparr>
                        else s3\<lparr>trace := trace s3 @
                                  [Emit ''timeout'' [],
                                   LogWarning ''Timed out waiting for preview server.''],
                                status := TimedOut\<rparr>
                   else s3)"

text \<open>The state in which \<^verbatim>\<open>run\<close> enters the loop; line 165 reads the clock.\<close>

definition initial :: "world \<Rightarrow> watch_thread \<Rightarrow> poll_state" where
  "initial w self =
     \<lparr>thread = self, start_time = time_at w 0, passes = 0, trace = [], status = Running\<rparr>"

text \<open>
  \<^verbatim>\<open>while 1\<close>, cut off after at most \<open>n\<close> passes: the state the loop has
  reached then. It goes round as long as no \<^verbatim>\<open>break\<close> and no exception has
  left it.
\<close>

fun loop :: "nat \<Rightarrow> world \<Rightarrow> poll_state \<Rightarrow> poll_state" where
  "loop 0 w s = s"
| "loop (Suc n) w s = (if status s = Running then loop n w (body w s) else s)"

text \<open>
  \<^verbatim>\<open>run(self)\<close>, lines 160 to 176, given \<open>n\<close> passes: \<open>None\<close> says the loop
  is still going round after \<open>n\<close> passes, \<open>Some s\<close> that \<^verbatim>\<open>run\<close> has ended
  in \<open>s\<close>.
\<close>

definition run :: "nat \<Rightarrow> world \<Rightarrow> watch_thread \<Rightarrow> poll_state option" where
  "run n w self =
     (let s = loop n w (initial w self) in if status s = Running then None else Some s)"

text \<open>The progress notifications among the actions: the emissions of the declared signal.\<close>

fun progress :: "action list \<Rightarrow> (int \<times> int) list" where
  "progress [] = []"
| "progress (Emit name [c, t] # as) =
     (if name = ''existCountChanged'' then (c, t) # progress as else progress as)"
| "progress (a # as) = progress as"

subsection \<open>Strings as Python handles them\<close>

text \<open>
  A character of the model is one code point below 256. \<open>isspace\<close> is
  \<^verbatim>\<open>str.isspace\<close> on that range: tab to carriage return, the four separators
  \<^verbatim>\<open>\x1c\<close> to \<^verbatim>\<open>\x1f\<close>, the space, \<^verbatim>\<open>\x85\<close> and \<^verbatim>\<open>\xa0\<close>.
\<close>

definition isspace :: "char \<Rightarrow> bool" where
  "isspace c =
     (let n = of_char c :: nat
      in (9 \<le> n \<and> n \<le> 13) \<or> (28 \<le> n \<and> n \<le> 32) \<or> n = 133 \<or> n = 160)"

definition isdigit :: "char \<Rightarrow> bool" where
  "isdigit c = (let n = of_char c :: nat in 48 \<le> n \<and> n \<le> 57)"

text \<open>\<^verbatim>\<open>s.strip()\<close>: white space off both ends.\<close>

definition strip :: "string \<Rightarrow> string" where
  "strip s = rev (dropWhile isspace (rev (dropWhile isspace s)))"

text \<open>\<^verbatim>\<open>s.startswith(p)\<close>.\<close>

definition startswith :: "string \<Rightarrow> string \<Rightarrow> bool" where
  "startswith s p = (take (length p) s = p)"

text \<open>
  \<^verbatim>\<open>s.split(sep)\<close> for a separator of one character: the pieces between the
  separators, always at least one piece.
\<close>

fun split :: "char \<Rightarrow> string \<Rightarrow> string list" where
  "split sep [] = [[]]"
| "split sep (c # cs) =
     (if c = sep then [] # split sep cs
      else (case split sep cs of
              [] \<Rightarrow> [[c]]
            | piece # pieces \<Rightarrow> (c # piece) # pieces))"

text \<open>
  \<^verbatim>\<open>int(s)\<close> on a string, base ten: white space off both ends, an optional
  sign, then digits, where one underscore may stand between two digits (Python 3.6
  and later); anything else raises \<^verbatim>\<open>ValueError\<close>.
\<close>

fun grouped_digits :: "string \<Rightarrow> bool" where
  "grouped_digits [] = False"
| "grouped_digits [c] = isdigit c"
| "grouped_digits (c # d # cs) =
     (isdigit c \<and> (if d = CHR ''_'' then grouped_digits cs else grouped_digits (d # cs)))"

definition decimal :: "string \<Rightarrow> int" where
  "decimal ds = foldl (\<lambda>a c. 10 * a + (int (of_char c) - 48)) 0 (filter isdigit ds)"

definition py_int :: "string \<Rightarrow> error + int" where
  "py_int s =
     (case strip s of
        [] \<Rightarrow> Inl ValueError
      | c # cs \<Rightarrow>
          if c = CHR ''-'' then (if grouped_digits cs then Inr (- decimal cs) else Inl ValueError)
          else if c = CHR ''+'' then (if grouped_digits cs then Inr (decimal cs) else Inl ValueError)
          else if grouped_digits (c # cs) then Inr (decimal (c # cs))
          else Inl ValueError)"

text \<open>\<^verbatim>\<open>"%d" % n\<close>.\<close>

fun decimal_digits :: "nat \<Rightarrow> string" where
  "decimal_digits n =
     (if n < 10 then [''0123456789'' ! n]
      else decimal_digits (n div 10) @ [''0123456789'' ! (n mod 10)])"

definition format_d :: "int \<Rightarrow> string" where
  "format_d n = (if n < 0 then CHR ''-'' # decimal_digits (nat (- n)) else decimal_digits (nat n))"

subsection \<open>\<^verbatim>\<open>PreviewProcessorDialog.__findHttpPort\<close>\<close>

definition katana_required :: error where
  "katana_required = Exception ''Katana 2.7.19 and above is required for preview feature.''"

text \<open>
  The \<^verbatim>\<open>for\<close> loop of lines 135 to 140 over the lines still to be read, with the
  value of \<^verbatim>\<open>counter\<close> on entry. Leaving the loop, by \<^verbatim>\<open>break\<close> or at the end
  of the file, reaches the \<^verbatim>\<open>raise\<close> of line 144.
\<close>

fun scan :: "int \<Rightarrow> string list \<Rightarrow> error + int" where
  "scan counter [] = Inl katana_required"
| "scan counter (line # rest) =
     (let counter' = counter + 1
      in if counter' \<ge> 5000 then Inl katana_required
         else if startswith line ''Preview Server''
         then (case split CHR '':'' line of
                 _ # field # _ \<Rightarrow> py_int (strip field)
               | _ \<Rightarrow> Inl IndexError)
         else scan counter' rest)"

text \<open>
  \<^verbatim>\<open>__findHttpPort\<close>, lines 130 to 144. The argument is the frame's log file as
  the iteration over the open file yields it, line by line; \<open>None\<close> stands for a file
  that cannot be opened.
\<close>

definition findHttpPort :: "string list option \<Rightarrow> error + int" where
  "findHttpPort logfile =
     (case logfile of None \<Rightarrow> Inl IOError | Some lines \<Rightarrow> scan 0 lines)"

subsection \<open>\<^verbatim>\<open>PreviewProcessorDialog.process\<close>\<close>

text \<open>
  What \<^verbatim>\<open>process\<close> reads from its surroundings: the frame's resource string and
  log file, the \<^verbatim>\<open>aovs\<close> flag, the answer of the preview server to a GET of a
  URL, the texts of the \<^verbatim>\<open>page/edit/element\<close> nodes of a document, the name
  \<^verbatim>\<open>mkstemp\<close> hands out, the outcome of writing a file, and the members of
  \<^verbatim>\<open>QThread\<close>.
\<close>

record surroundings =
  resource :: string
  frame_log :: "string list option"
  aovs :: bool
  urlopen_read :: "string \<Rightarrow> error + string"
  element_texts :: "string \<Rightarrow> error + string list"
  mkstemp :: string
  write_file :: "string \<Rightarrow> string \<Rightarrow> error option"
  qthread :: "string list"

text \<open>The two fields of the dialog that \<^verbatim>\<open>process\<close> assigns.\<close>

record dialog =
  itvFile :: "string option"
  previewThread :: "watch_thread option"

datatype effect =
    HttpGet string
  | FileWritten string string
  | ThreadAppended
  | ThreadStarted
  | ProgbarSetRange int int
  | Connected string

text \<open>\<^verbatim>\<open>__writePlaylist(data)\<close>, lines 120 to 128.\<close>

definition writePlaylist :: "surroundings \<Rightarrow> string \<Rightarrow> error + string" where
  "writePlaylist env data =
     (let name = mkstemp env
      in case write_file env name data of
           Some e \<Rightarrow> Inl e
         | None \<Rightarrow> Inr name)"

text \<open>
  \<^verbatim>\<open>process(self)\<close>, lines 78 to 102: the outcome (an exception or a plain
  return), the dialog afterwards, and what was done on the way.
\<close>

text \<open>The URL of line 88, \<^verbatim>\<open>"http://%s:%d%s" % (http_host, http_port, aovs)\<close>.\<close>

definition preview_url :: "string \<Rightarrow> int \<Rightarrow> string \<Rightarrow> string" where
  "preview_url http_host http_port aovs_path =
     ''http://'' @ http_host @ '':'' @ format_d http_port @ aovs_path"

definition process ::
  "surroundings \<Rightarrow> dialog \<Rightarrow> (error + unit) \<times> dialog \<times> effect list" where
  "process env d =
     (case split CHR ''/'' (resource env) of
        [] \<Rightarrow> (Inl IndexError, d, [])
      | http_host # _ \<Rightarrow>
          (case findHttpPort (frame_log env) of
             Inl e \<Rightarrow> (Inl e, d, [])
           | Inr http_port \<Rightarrow>
               let aovs_path = (if aovs env then ''/aovs'' else []);
                   url = preview_url http_host http_port aovs_path
               in case urlopen_read env url of
                    Inl e \<Rightarrow> (Inl e, d, [HttpGet url])
                  | Inr playlist \<Rightarrow>
                      (case element_texts env playlist of
                         Inl e \<Rightarrow> (Inl e, d, [HttpGet url])
                       | Inr its \<Rightarrow>
                           if its = [] then (Inr (), d, [HttpGet url])
                           else
                             (case writePlaylist env playlist of
                                Inl e \<Rightarrow> (Inl e, d, [HttpGet url])
                              | Inr name \<Rightarrow>
                                  let t = init (qthread env) its;
                                      d' = d\<lparr>itvFile := Some name, previewThread := Some t\<rparr>;
                                      done = [HttpGet url, FileWritten name playlist,
                                              ThreadAppended, ThreadStarted,
                                              ProgbarSetRange 0 (int (length its)),
                                              Connected ''existCountChanged'']
                                  in if \<not> resolves t ''timeout''
                                     then (Inl (AttributeError ''timeout''), d', done)
                                     else (Inr (), d', done @ [Connected ''timeout''])))))"

section \<open>Properties\<close>

subsection \<open>The loop, pass by pass\<close>

lemma progress_append: "progress (xs @ ys) = progress xs @ progress ys"
  by (induction xs rule: progress.induct) simp_all

lemma initial_simps [simp]:
  "thread (initial w self) = self" "passes (initial w self) = 0"
  "trace (initial w self) = []" "status (initial w self) = Running"
  "start_time (initial w self) = time_at w 0"
  by (simp_all add: initial_def)

lemma body_thread: "thread (body w s) = thread s"
  by (simp add: body_def Let_def)

lemma body_start_time: "start_time (body w s) = start_time s"
  by (simp add: body_def Let_def)

lemma body_passes: "passes (body w s) = Suc (passes s)"
  by (simp add: body_def Let_def)

lemma body_progress:
  "progress (trace (body w s)) =
     progress (trace s) @
       [(existing_count w (passes s) (items (thread s)), int (length (items (thread s))))]"
  by (simp add: body_def Let_def progress_append)

lemma loop_thread: "thread (loop n w s) = thread s"
  by (induction n arbitrary: s) (simp_all add: body_thread)

lemma loop_start_time: "start_time (loop n w s) = start_time s"
  by (induction n arbitrary: s) (simp_all add: body_start_time)

lemma loop_passes_mono: "passes s \<le> passes (loop n w s)"
proof (induction n arbitrary: s)
  case 0
  show ?case by simp
next
  case (Suc n)
  show ?case using Suc.IH [of "body w s"] by (simp add: body_passes)
qed

lemma loop_passes_le: "passes (loop n w s) \<le> passes s + n"
proof (induction n arbitrary: s)
  case 0
  show ?case by simp
next
  case (Suc n)
  show ?case using Suc.IH [of "body w s"] by (simp add: body_passes)
qed

text \<open>
  The progress notifications of the first passes are, pass by pass, the count of that
  pass and the length of the item list.
\<close>

lemma loop_progress:
  "progress (trace (loop n w s)) =
     progress (trace s) @
       map (\<lambda>k. (existing_count w k (items (thread s)), int (length (items (thread s)))))
         [passes s ..< passes (loop n w s)]"
proof (induction n arbitrary: s)
  case 0
  show ?case by simp
next
  case (Suc n)
  show ?case
  proof (cases "status s = Running")
    case False
    then show ?thesis by simp
  next
    case True
    have le: "Suc (passes s) \<le> passes (loop n w (body w s))"
      using loop_passes_mono [of "body w s" n w] by (simp add: body_passes)
    show ?thesis using True Suc.IH [of "body w s"] le
      by (simp add: body_progress body_thread body_passes upt_conv_Cons)
  qed
qed

lemma existing_count_bounds:
  "0 \<le> existing_count w k its \<and> existing_count w k its \<le> int (length its)"
  by (simp add: existing_count_def)

subsection \<open>Bounds of the reported count\<close>

text \<open>
  Claim C7. Whatever the item list, the filesystem, the clock and the number of passes:
  every progress notification \<open>(c, t)\<close> the loop has emitted has \<open>0 \<le> c \<le> t\<close>,
  and \<open>t\<close> is the length of the item list.
\<close>

theorem count_within_total:
  "(c, t) \<in> set (progress (trace (loop n w (initial w self)))) \<Longrightarrow>
     0 \<le> c \<and> c \<le> t \<and> t = int (length (items self))"
  using existing_count_bounds [of w _ "items self"]
  by (auto simp add: loop_progress)

theorem count_within_total_witness:
  "(1, 2) \<in> set (progress (trace (loop 1
       \<lparr>exists_at = (\<lambda>k p. p = ''/a''), time_at = (\<lambda>k. real k)\<rparr>
       (initial \<lparr>exists_at = (\<lambda>k p. p = ''/a''), time_at = (\<lambda>k. real k)\<rparr>
          (init QThread_members [''/a'', ''/b''])))))
   \<and> (0::int) \<le> 1 \<and> (1::int) \<le> 2
   \<and> (2::int) = int (length (items (init QThread_members [''/a'', ''/b''])))"
proof -
  let ?w = "\<lparr>exists_at = (\<lambda>k p. p = ''/a''), time_at = (\<lambda>k. real k)\<rparr>"
  have h: "(1, 2) \<in> set (progress (trace (loop 1 ?w
              (initial ?w (init QThread_members [''/a'', ''/b''])))))"
    by (simp add: body_def Let_def init_def resolves_def existing_count_def
          QThread_members_def class_members_def instance_members_def)
  show ?thesis using h count_within_total [OF h] by simp
qed

subsection \<open>One progress notification for each pass\<close>

lemma loop_progress_initial:
  "progress (trace (loop n w (initial w (init base its)))) =
     map (\<lambda>k. (int (length (filter (exists_at w k) its)), int (length its)))
       [0 ..< passes (loop n w (initial w (init base its)))]"
proof -
  have "items (thread (initial w (init base its))) = its"
    by (simp add: init_def)
  then show ?thesis
    using loop_progress [of n w "initial w (init base its)"]
    by (simp add: existing_count_def)
qed

lemma loop_passes_pos: "0 < n \<Longrightarrow> 0 < passes (loop n w (initial w self))"
proof -
  assume "0 < n"
  then obtain m where n: "n = Suc m" using gr0_implies_Suc by blast
  have "passes (body w (initial w self)) \<le> passes (loop m w (body w (initial w self)))"
    by (rule loop_passes_mono)
  then show ?thesis unfolding n by (simp add: body_passes)
qed

text \<open>
  Claim C1. For a non-empty item list, the progress notifications the loop has emitted
  after any number of passes are, pass by pass, the number of items whose path exists
  during that pass together with the length of the list: each pass counts afresh and
  emits exactly one such notification. Once a pass has been made, the first
  notification is the one of pass 0; for the list \<^verbatim>\<open>["/a", "/b"]\<close> with only
  \<^verbatim>\<open>/a\<close> present it is \<open>(1, 2)\<close>, as the instance below shows.
\<close>

theorem progress_each_pass:
  assumes "its \<noteq> []"
  shows "progress (trace (loop n w (initial w (init base its)))) =
           map (\<lambda>k. (int (length (filter (exists_at w k) its)), int (length its)))
             [0 ..< passes (loop n w (initial w (init base its)))]
         \<and> (0 < n \<longrightarrow>
               0 < passes (loop n w (initial w (init base its))) \<and>
               hd (progress (trace (loop n w (initial w (init base its))))) =
                 (int (length (filter (exists_at w 0) its)), int (length its)))"
proof (intro conjI impI)
  show "progress (trace (loop n w (initial w (init base its)))) =
           map (\<lambda>k. (int (length (filter (exists_at w k) its)), int (length its)))
             [0 ..< passes (loop n w (initial w (init base its)))]"
    by (rule loop_progress_initial)
next
  assume "0 < n"
  then show "0 < passes (loop n w (initial w (init base its)))"
    by (rule loop_passes_pos)
next
  assume "0 < n"
  then have pos: "0 < passes (loop n w (initial w (init base its)))"
    by (rule loop_passes_pos)
  then have "[0 ..< passes (loop n w (initial w (init base its)))] =
               0 # [Suc 0 ..< passes (loop n w (initial w (init base its)))]"
    by (rule upt_conv_Cons)
  then show "hd (progress (trace (loop n w (initial w (init base its))))) =
                 (int (length (filter (exists_at w 0) its)), int (length its))"
    by (simp only: loop_progress_initial list.map list.sel)
qed

theorem progress_each_pass_witness:
  "[''/a'', ''/b''] \<noteq> [] \<and> (0::nat) < 1 \<and>
   progress (trace (loop 1
       \<lparr>exists_at = (\<lambda>k p. p = ''/a''), time_at = (\<lambda>k. real k)\<rparr>
       (initial \<lparr>exists_at = (\<lambda>k p. p = ''/a''), time_at = (\<lambda>k. real k)\<rparr>
          (init QThread_members [''/a'', ''/b''])))) = [(1, 2)] \<and>
   hd (progress (trace (loop 1
       \<lparr>exists_at = (\<lambda>k p. p = ''/a''), time_at = (\<lambda>k. real k)\<rparr>
       (initial \<lparr>exists_at = (\<lambda>k p. p = ''/a''), time_at = (\<lambda>k. real k)\<rparr>
          (init QThread_members [''/a'', ''/b'']))))) = (1, 2)"
proof -
  let ?w = "\<lparr>exists_at = (\<lambda>k p. p = ''/a''), time_at = (\<lambda>k. real k)\<rparr>"
  have ne: "[''/a'', ''/b''] \<noteq> []" by simp
  have one: "passes (loop 1 ?w (initial ?w (init QThread_members [''/a'', ''/b'']))) = 1"
    by (simp add: body_passes)
  show ?thesis
    using progress_each_pass [OF ne, of 1 ?w QThread_members] one
    by simp
qed

subsection \<open>The deadline\<close>

text \<open>
  Claim C4. \<^verbatim>\<open>__init__\<close> sets the timeout to \<open>60 + 30 * N\<close> for a list of
  \<open>N\<close> items. No pass through the loop changes the thread object or the start time
  read at line 165, so after any number of passes the deadline of line 173 is still
  the start time plus \<open>60 + 30 * N\<close>.
\<close>

theorem deadline_fixed:
  "timeout (init base its) = 60 + 30 * int (length its) \<and>
   thread (loop n w (initial w (init base its))) = init base its \<and>
   start_time (loop n w (initial w (init base its))) = time_at w 0 \<and>
   deadline (loop n w (initial w (init base its)))
     = time_at w 0 + 60 + 30 * real (length its)"
  by (simp add: deadline_def loop_thread loop_start_time) (simp add: init_def)

subsection \<open>The class as it is written\<close>

text \<open>
  The class body declares the signal \<^verbatim>\<open>existCountChanged\<close>; line 169 looks up
  \<^verbatim>\<open>existsCountChanged\<close> and line 174 \<^verbatim>\<open>timeout\<close>, which neither the class
  nor \<^verbatim>\<open>QThread\<close> has. The first pass therefore emits its progress notification
  at line 168 and raises \<^verbatim>\<open>AttributeError\<close> at line 169, before the test of
  line 170 is reached.
\<close>

lemma loop_stopped: "status s \<noteq> Running \<Longrightarrow> loop n w s = s"
  by (cases n) simp_all

lemma body_unresolved:
  "\<not> resolves (thread s) ''existsCountChanged'' \<Longrightarrow>
   body w s =
     s\<lparr>passes := Suc (passes s),
       trace := trace s @ [Emit ''existCountChanged''
                  [existing_count w (passes s) (items (thread s)),
                   int (length (items (thread s)))]],
       status := Raised (AttributeError ''existsCountChanged'')\<rparr>"
  by (simp add: body_def Let_def)

lemma run_unresolved:
  assumes "\<not> resolves self ''existsCountChanged''"
  shows "run (Suc n) w self =
     Some \<lparr>thread = self, start_time = time_at w 0, passes = 1,
           trace = [Emit ''existCountChanged''
                      [existing_count w 0 (items self), int (length (items self))]],
           status = Raised (AttributeError ''existsCountChanged'')\<rparr>"
proof -
  have b: "body w (initial w self) =
     \<lparr>thread = self, start_time = time_at w 0, passes = 1,
           trace = [Emit ''existCountChanged''
                      [existing_count w 0 (items self), int (length (items self))]],
           status = Raised (AttributeError ''existsCountChanged'')\<rparr>"
    using assms by (simp add: body_unresolved initial_def)
  have "loop (Suc n) w (initial w self) = loop n w (body w (initial w self))"
    by simp
  also have "\<dots> = body w (initial w self)"
    by (rule loop_stopped) (simp add: b)
  finally show ?thesis by (simp add: run_def b)
qed

lemma QThread_lacks:
  "\<not> resolves (init QThread_members its) ''existsCountChanged''"
  "\<not> resolves (init QThread_members its) ''timeout''"
  by (simp_all add: resolves_def init_def QThread_members_def class_members_def
        instance_members_def)

text \<open>
  Claim C2 says that a run which finds every path present ends \<open>Completed\<close> after its
  first pass. For the items \<^verbatim>\<open>["/a", "/b"]\<close>, both present from the start, the
  run emits \<open>(2, 2)\<close> and then ends with the \<^verbatim>\<open>AttributeError\<close> of line 169: it
  does not sleep and emits nothing more, but it does not leave the loop through the
  \<^verbatim>\<open>break\<close> of line 171.
\<close>

theorem all_present_run_raises:
  "map_option (\<lambda>s. (status s, trace s))
     (run (Suc n) \<lparr>exists_at = (\<lambda>k p. True), time_at = (\<lambda>k. real k)\<rparr>
        (init QThread_members [''/a'', ''/b'']))
   = Some (Raised (AttributeError ''existsCountChanged''),
           [Emit ''existCountChanged'' [2, 2]])"
  by (simp add: run_unresolved QThread_lacks) (simp add: init_def existing_count_def)

text \<open>
  Claim C3 says that a run during which no path appears ends \<open>TimedOut\<close> and emits the
  timeout notification. For the single item \<^verbatim>\<open>/a\<close>, never present, the run ends
  in its first pass with the \<^verbatim>\<open>AttributeError\<close> of line 169; its only action is
  the progress notification \<open>(0, 1)\<close>, and no timeout notification is emitted.
\<close>

theorem nothing_appears_run_raises:
  "map_option (\<lambda>s. (status s, trace s))
     (run (Suc n) \<lparr>exists_at = (\<lambda>k p. False), time_at = (\<lambda>k. real k)\<rparr>
        (init QThread_members [''/a'']))
   = Some (Raised (AttributeError ''existsCountChanged''),
           [Emit ''existCountChanged'' [0, 1]])"
  by (simp add: run_unresolved QThread_lacks) (simp add: init_def existing_count_def)

text \<open>
  Claim C8 says that the last notification of a run is a progress notification with
  the count equal to the total, or the timeout notification. For the items
  \<^verbatim>\<open>["/a", "/b"]\<close> with only \<^verbatim>\<open>/a\<close> present, the last action of the run is
  the progress notification \<open>(1, 2)\<close>.
\<close>

theorem last_notification_incomplete:
  "map_option (\<lambda>s. (status s, last (trace s)))
     (run (Suc n) \<lparr>exists_at = (\<lambda>k p. p = ''/a''), time_at = (\<lambda>k. real k)\<rparr>
        (init QThread_members [''/a'', ''/b'']))
   = Some (Raised (AttributeError ''existsCountChanged''),
           Emit ''existCountChanged'' [1, 2])"
  by (simp add: run_unresolved QThread_lacks) (simp add: init_def existing_count_def)

text \<open>
  Claim C9 says that the loop is left, \<open>Completed\<close> or \<open>TimedOut\<close>, within about
  \<open>61 + 30 * N\<close> passes. For the single item \<^verbatim>\<open>/a\<close>, never present, and a clock
  that advances one second with each sleep, \<open>61 + 30 * 1\<close> passes are enough for the
  run to end, but it ends after one pass with the \<^verbatim>\<open>AttributeError\<close> of line 169.
\<close>

theorem run_leaves_by_exception:
  "map_option (\<lambda>s. (status s, passes s))
     (run (61 + 30 * length [''/a''])
        \<lparr>exists_at = (\<lambda>k p. False), time_at = (\<lambda>k. real k)\<rparr>
        (init QThread_members [''/a'']))
   = Some (Raised (AttributeError ''existsCountChanged''), 1)"
proof -
  have "61 + 30 * length [''/a''] = Suc 90" by simp
  then show ?thesis
    by (simp only: run_unresolved QThread_lacks not_False_eq_True) simp
qed

text \<open>
  Claim C10 says that a pass which finds every path present ends the run \<open>Completed\<close>,
  also when the deadline has passed. For the single item \<^verbatim>\<open>/a\<close>, present, and a
  clock that reads 1000 seconds after the start at line 173, the run emits \<open>(1, 1)\<close>
  and ends with the \<^verbatim>\<open>AttributeError\<close> of line 169: no timeout notification, and
  no \<open>Completed\<close> either.
\<close>

theorem complete_past_deadline_raises:
  "map_option (\<lambda>s. (status s, trace s))
     (run (Suc n)
        \<lparr>exists_at = (\<lambda>k p. True), time_at = (\<lambda>k. if k = 0 then 0 else 1000)\<rparr>
        (init QThread_members [''/a'']))
   = Some (Raised (AttributeError ''existsCountChanged''),
           [Emit ''existCountChanged'' [1, 1]])"
  by (simp add: run_unresolved QThread_lacks) (simp add: init_def existing_count_def)

subsection \<open>What does not depend on the missing names\<close>

text \<open>
  Whatever names resolve: a pass that leaves the loop going has read the clock at or
  before the deadline. So when every sleep lets the clock advance by a second or more,
  the loop is left within \<open>61 + 30 * N\<close> passes.
\<close>

lemma body_deadline: "deadline (body w s) = deadline s"
  by (simp add: deadline_def body_thread body_start_time)

lemma body_running:
  "status (body w s) = Running \<Longrightarrow>
     status s = Running \<and> time_at w (Suc (passes s)) \<le> deadline s"
  by (simp add: body_def Let_def split: if_splits)

lemma loop_running:
  "status (loop n w s) = Running \<Longrightarrow>
     status s = Running \<and> passes (loop n w s) = passes s + n \<and>
     (0 < n \<longrightarrow> time_at w (passes s + n) \<le> deadline s)"
proof (induction n arbitrary: s)
  case 0
  then show ?case by simp
next
  case (Suc n)
  have run: "status s = Running"
    using Suc.prems by (cases "status s = Running") simp_all
  then have l: "loop (Suc n) w s = loop n w (body w s)" by simp
  have ih: "status (body w s) = Running \<and>
            passes (loop n w (body w s)) = passes (body w s) + n \<and>
            (0 < n \<longrightarrow> time_at w (passes (body w s) + n) \<le> deadline (body w s))"
    using Suc.prems unfolding l by (rule Suc.IH)
  have first: "time_at w (Suc (passes s)) \<le> deadline s"
    using ih body_running by blast
  have p: "passes (loop (Suc n) w s) = passes s + Suc n"
    using ih unfolding l by (simp add: body_passes)
  have t: "time_at w (passes s + Suc n) \<le> deadline s"
  proof (cases "n = 0")
    case True
    then show ?thesis using first by simp
  next
    case False
    then show ?thesis using ih by (simp add: body_passes body_deadline)
  qed
  show ?case using run p t by simp
qed

lemma run_ends_within_bound:
  assumes clock: "\<forall>k. time_at w 0 + real (Suc k) \<le> time_at w (Suc k)"
  shows "\<exists>s. run (61 + 30 * length its) w (init base its) = Some s \<and>
             passes s \<le> 61 + 30 * length its"
proof -
  let ?n = "61 + 30 * length its"
  let ?s = "loop ?n w (initial w (init base its))"
  have "status ?s \<noteq> Running"
  proof
    assume "status ?s = Running"
    then have "status (initial w (init base its)) = Running \<and>
               passes ?s = passes (initial w (init base its)) + ?n \<and>
               (0 < ?n \<longrightarrow> time_at w (passes (initial w (init base its)) + ?n)
                 \<le> deadline (initial w (init base its)))"
      by (rule loop_running)
    then have le: "time_at w ?n \<le> time_at w 0 + 60 + 30 * real (length its)"
      by (simp add: deadline_def init_def)
    have "time_at w 0 + real (Suc (60 + 30 * length its)) \<le> time_at w (Suc (60 + 30 * length its))"
      using clock by blast
    then have "time_at w 0 + 61 + 30 * real (length its) \<le> time_at w ?n"
      by simp
    then show False using le by simp
  qed
  moreover have "passes ?s \<le> ?n"
    using loop_passes_le [of ?n w "initial w (init base its)"] by simp
  ultimately show ?thesis by (simp add: run_def)
qed

text \<open>
  The test of line 170 comes before the sleep and the test of line 173: were the name
  of line 169 to resolve, a pass that finds every path present would end \<open>Completed\<close>
  with the two emissions of lines 168 and 169 and nothing else.
\<close>

lemma body_completion_first:
  assumes "resolves (thread s) ''existsCountChanged''"
    and "existing_count w (passes s) (items (thread s)) = int (length (items (thread s)))"
  shows "status (body w s) = Completed \<and>
         trace (body w s) = trace s @
           [Emit ''existCountChanged''
              [int (length (items (thread s))), int (length (items (thread s)))],
            Emit ''existsCountChanged''
              [int (length (items (thread s))), int (length (items (thread s)))]]"
  using assms by (simp add: body_def Let_def)

subsection \<open>Port discovery\<close>

text \<open>
  Lines that do not start with the marker are passed over, as long as the counter,
  raised by one for each of them, stays below 5000.
\<close>

lemma scan_skip:
  "\<forall>l \<in> set pre. \<not> startswith l ''Preview Server'' \<Longrightarrow>
   c + int (length pre) < 5000 \<Longrightarrow>
   scan c (pre @ rest) = scan (c + int (length pre)) rest"
proof (induction pre arbitrary: c)
  case Nil
  show ?case by simp
next
  case (Cons l pre)
  have small: "c + 1 + int (length pre) < 5000" and l: "\<not> startswith l ''Preview Server''"
    and pre: "\<forall>l \<in> set pre. \<not> startswith l ''Preview Server''"
    using Cons.prems by simp_all
  have ih: "scan (c + 1) (pre @ rest) = scan (c + 1 + int (length pre)) rest"
    using pre small by (rule Cons.IH)
  have nb: "\<not> c + 1 \<ge> 5000" using small by arith
  have eq: "c + int (length (l # pre)) = c + 1 + int (length pre)" by simp
  have "scan c ((l # pre) @ rest) = scan (c + 1) (pre @ rest)"
    using nb l by (simp add: Let_def)
  also have "\<dots> = scan (c + 1 + int (length pre)) rest" by (rule ih)
  also have "\<dots> = scan (c + int (length (l # pre))) rest" by (simp only: eq)
  finally show ?case .
qed

text \<open>
  With the counter at \<open>c\<close> the loop looks at no more than the next \<open>4999 - c\<close>
  lines; when none of them starts with the marker, line 144 raises.
\<close>

lemma scan_none:
  "\<forall>l \<in> set (take (nat (4999 - c)) ls). \<not> startswith l ''Preview Server'' \<Longrightarrow>
   scan c ls = Inl katana_required"
proof (induction ls arbitrary: c)
  case Nil
  show ?case by simp
next
  case (Cons l ls)
  show ?case
  proof (cases "c + 1 \<ge> 5000")
    case True
    then show ?thesis by (simp add: Let_def)
  next
    case False
    then have m: "nat (4999 - c) = Suc (nat (4999 - (c + 1)))" by arith
    have l: "\<not> startswith l ''Preview Server''"
      and ls: "\<forall>l \<in> set (take (nat (4999 - (c + 1))) ls). \<not> startswith l ''Preview Server''"
      using Cons.prems unfolding m by simp_all
    have "scan (c + 1) ls = Inl katana_required"
      using ls by (rule Cons.IH)
    then show ?thesis using False l by (simp add: Let_def)
  qed
qed

text \<open>
  Claim C5, as the code has it. The scan looks at the first 4999 lines of the log
  file, the break of line 138 coming before the test of the 5000th. When the first
  line that starts with \<^verbatim>\<open>Preview Server\<close> is one of the first 4999 lines, and
  the text between its first and its second colon is an integer literal once white
  space is stripped, \<^verbatim>\<open>__findHttpPort\<close> returns that integer. When none of
  the first 4999 lines starts with \<^verbatim>\<open>Preview Server\<close>, it raises the exception
  of line 144.
\<close>

theorem findHttpPort_first_4999:
  "(logfile = pre @ line # rest \<and> length pre < 4999 \<and>
    (\<forall>l \<in> set pre. \<not> startswith l ''Preview Server'') \<and>
    startswith line ''Preview Server'' \<and>
    split CHR '':'' line = a # field # others \<and> py_int (strip field) = Inr port
    \<longrightarrow> findHttpPort (Some logfile) = Inr port) \<and>
   ((\<forall>l \<in> set (take 4999 logfile). \<not> startswith l ''Preview Server'')
    \<longrightarrow> findHttpPort (Some logfile) = Inl katana_required)"
proof (intro conjI impI)
  assume h: "logfile = pre @ line # rest \<and> length pre < 4999 \<and>
    (\<forall>l \<in> set pre. \<not> startswith l ''Preview Server'') \<and>
    startswith line ''Preview Server'' \<and>
    split CHR '':'' line = a # field # others \<and> py_int (strip field) = Inr port"
  then have pre: "\<forall>l \<in> set pre. \<not> startswith l ''Preview Server''"
    and small: "0 + int (length pre) < 5000" by simp_all
  have "scan 0 (pre @ line # rest) = scan (0 + int (length pre)) (line # rest)"
    using pre small by (rule scan_skip)
  moreover have "scan (0 + int (length pre)) (line # rest) = Inr port"
    using h by (simp add: Let_def)
  ultimately show "findHttpPort (Some logfile) = Inr port"
    using h by (simp add: findHttpPort_def)
next
  assume "\<forall>l \<in> set (take 4999 logfile). \<not> startswith l ''Preview Server''"
  then show "findHttpPort (Some logfile) = Inl katana_required"
    using scan_none [of 0 logfile] by (simp add: findHttpPort_def)
qed


theorem findHttpPort_first_4999_witness:
  "[''render start\<newline>'', ''Preview Server : 9321\<newline>'', ''done\<newline>'']
      = [''render start\<newline>''] @ ''Preview Server : 9321\<newline>'' # [''done\<newline>''] \<and>
   length [''render start\<newline>''] < 4999 \<and>
   \<not> startswith ''render start\<newline>'' ''Preview Server'' \<and>
   startswith ''Preview Server : 9321\<newline>'' ''Preview Server'' \<and>
   split CHR '':'' ''Preview Server : 9321\<newline>'' = ''Preview Server '' # '' 9321\<newline>'' # [] \<and>
   py_int (strip '' 9321\<newline>'') = Inr 9321 \<and>
   findHttpPort
     (Some [''render start\<newline>'', ''Preview Server : 9321\<newline>'', ''done\<newline>''])
     = Inr 9321 \<and>
   take 4999 [''render start\<newline>''] = [''render start\<newline>''] \<and>
   findHttpPort (Some [''render start\<newline>'']) = Inl katana_required"
proof -
  have h1: "[''render start\<newline>'', ''Preview Server : 9321\<newline>'', ''done\<newline>'']
      = [''render start\<newline>''] @ ''Preview Server : 9321\<newline>'' # [''done\<newline>''] \<and>
    length [''render start\<newline>''] < 4999 \<and>
    (\<forall>l \<in> set [''render start\<newline>'']. \<not> startswith l ''Preview Server'') \<and>
    startswith ''Preview Server : 9321\<newline>'' ''Preview Server'' \<and>
    split CHR '':'' ''Preview Server : 9321\<newline>'' = ''Preview Server '' # '' 9321\<newline>'' # [] \<and>
    py_int (strip '' 9321\<newline>'') = Inr 9321"
    by (simp add: startswith_def strip_def isspace_def py_int_def isdigit_def decimal_def)
  have h2: "\<forall>l \<in> set (take 4999 [''render start\<newline>'']). \<not> startswith l ''Preview Server''"
    by (simp add: startswith_def)
  have c1: "findHttpPort
     (Some [''render start\<newline>'', ''Preview Server : 9321\<newline>'', ''done\<newline>''])
     = Inr 9321"
    using h1 findHttpPort_first_4999
      [of "[''render start\<newline>'', ''Preview Server : 9321\<newline>'', ''done\<newline>'']"
          "[''render start\<newline>'']" "''Preview Server : 9321\<newline>''" "[''done\<newline>'']"
          "''Preview Server ''" "'' 9321\<newline>''" "[]" 9321]
    by blast
  have c2: "findHttpPort (Some [''render start\<newline>'']) = Inl katana_required"
    using h2 findHttpPort_first_4999 [of "[''render start\<newline>'']"] by blast
  show ?thesis using h1 c1 c2 by simp
qed

text \<open>
  Claim C5 as worded fails twice. A log file whose 5000th line is
  \<^verbatim>\<open>Preview Server : 9321\<close> has the marker within its first 5000 lines, and
  the exception of line 144 is raised. A log file whose first line starts with the
  marker and holds no colon raises \<^verbatim>\<open>IndexError\<close> at line 140 instead of
  returning a port.
\<close>

theorem findHttpPort_counterexample:
  "length (replicate 4999 ''render\<newline>'' @ [''Preview Server : 9321\<newline>'']) = 5000 \<and>
   startswith (last (replicate 4999 ''render\<newline>'' @ [''Preview Server : 9321\<newline>'']))
     ''Preview Server'' \<and>
   findHttpPort (Some (replicate 4999 ''render\<newline>'' @ [''Preview Server : 9321\<newline>'']))
     = Inl katana_required \<and>
   startswith ''Preview Server started\<newline>'' ''Preview Server'' \<and>
   findHttpPort (Some [''Preview Server started\<newline>'']) = Inl IndexError"
proof -
  have "scan 0 (replicate 4999 ''render\<newline>'' @ [''Preview Server : 9321\<newline>''])
          = scan (0 + int (length (replicate 4999 ''render\<newline>''))) [''Preview Server : 9321\<newline>'']"
    by (rule scan_skip) (simp_all add: startswith_def)
  then have "findHttpPort (Some (replicate 4999 ''render\<newline>'' @ [''Preview Server : 9321\<newline>'']))
     = Inl katana_required"
    by (simp add: findHttpPort_def Let_def)
  moreover have "findHttpPort (Some [''Preview Server started\<newline>'']) = Inl IndexError"
    by (simp add: findHttpPort_def Let_def startswith_def)
  ultimately show ?thesis by (simp add: startswith_def)
qed

subsection \<open>An empty playlist\<close>

text \<open>
  Claim C6. When the port is found, the playlist is fetched and no
  \<^verbatim>\<open>page/edit/element\<close> node is parsed from it, \<^verbatim>\<open>process\<close> returns without
  an exception at line 93: the dialog is as before (no playlist file name, no thread),
  and the GET of the playlist is all that has been done; no file is written, no
  thread is started and the range of the progress bar is not set.
\<close>

theorem process_empty_playlist:
  assumes "split CHR ''/'' (resource env) = http_host # segments"
    and "findHttpPort (frame_log env) = Inr http_port"
    and "urlopen_read env
           (preview_url http_host http_port (if aovs env then ''/aovs'' else [])) = Inr playlist"
    and "element_texts env playlist = Inr []"
  shows "process env d =
           (Inr (), d,
            [HttpGet (preview_url http_host http_port (if aovs env then ''/aovs'' else []))])"
  using assms by (simp add: process_def Let_def)

theorem process_empty_playlist_witness:
  "split CHR ''/'' ''render07/0.5'' = ''render07'' # [''0.5''] \<and>
   findHttpPort (Some [''Preview Server : 9321\<newline>'']) = Inr 9321 \<and>
   preview_url ''render07'' 9321 [] = ''http://render07:9321'' \<and>
   process
     \<lparr>resource = ''render07/0.5'',
      frame_log = Some [''Preview Server : 9321\<newline>''],
      aovs = False,
      urlopen_read = (\<lambda>url. if url = ''http://render07:9321'' then Inr ''<page/>''
                            else Inl (External ''URLError'')),
      element_texts = (\<lambda>doc. if doc = ''<page/>'' then Inr []
                             else Inl (External ''ParseError'')),
      mkstemp = ''/tmp/playlist0001.itv'',
      write_file = (\<lambda>name data. None),
      qthread = QThread_members\<rparr>
     \<lparr>itvFile = None, previewThread = None\<rparr>
   = (Inr (), \<lparr>itvFile = None, previewThread = None\<rparr>,
      [HttpGet ''http://render07:9321''])"
proof -
  let ?env = "\<lparr>resource = ''render07/0.5'',
      frame_log = Some [''Preview Server : 9321\<newline>''],
      aovs = False,
      urlopen_read = (\<lambda>url. if url = ''http://render07:9321'' then Inr ''<page/>''
                            else Inl (External ''URLError'')),
      element_texts = (\<lambda>doc. if doc = ''<page/>'' then Inr []
                             else Inl (External ''ParseError'')),
      mkstemp = ''/tmp/playlist0001.itv'',
      write_file = (\<lambda>name data. None),
      qthread = QThread_members\<rparr>"
  have h1: "split CHR ''/'' (resource ?env) = ''render07'' # [''0.5'']"
    by simp
  have h2: "findHttpPort (frame_log ?env) = Inr 9321"
    by (simp add: findHttpPort_def Let_def startswith_def strip_def isspace_def py_int_def
          isdigit_def decimal_def)
  have u: "preview_url ''render07'' 9321 [] = ''http://render07:9321''"
    by (simp add: preview_url_def format_d_def)
  have h3: "urlopen_read ?env
           (preview_url ''render07'' 9321 (if aovs ?env then ''/aovs'' else [])) = Inr ''<page/>''"
    by (simp add: u)
  have h4: "element_texts ?env ''<page/>'' = Inr []"
    by simp
  show ?thesis
    using process_empty_playlist [OF h1 h2 h3 h4, of "\<lparr>itvFile = None, previewThread = None\<rparr>"]
      h1 h2 u by simp
qed

end
